theory Spec2Isabelle
  imports Complex_Main "HOL-Library.Sublist"
begin

section \<open>Python strings\<close>

text \<open>
  A Python \<open>str\<close> is modelled as a \<open>string\<close>: one \<open>char\<close> stands for one code point,
  so \<open>length\<close> is Python's \<open>len\<close> for text whose code points are below 256. The
  built-in methods the services call are written out below; case conversion is the one of
  the ASCII letters.
\<close>

definition whitespace :: string where
  \<comment> \<open>The code points below 256 for which \<open>str.isspace\<close> holds: tab, line feed, vertical tab,
     form feed, carriage return, the four separators 28 to 31, space, next line and the
     no-break space.\<close>
  "whitespace = [CHR 0x09, CHR 0x0A, CHR 0x0B, CHR 0x0C, CHR 0x0D, CHR 0x1C, CHR 0x1D, CHR 0x1E,
                 CHR 0x1F, CHR 0x20, CHR 0x85, CHR 0xA0]"

definition py_isspace :: "char \<Rightarrow> bool" where
  "py_isspace c = (c \<in> set whitespace)"

function py_split :: "string \<Rightarrow> string list" where
  \<comment> \<open>\<open>s.split()\<close>: the maximal runs of characters that are not white space.\<close>
  "py_split [] = []"
| "py_split (c # cs) =
     (if py_isspace c then py_split cs
      else takeWhile (\<lambda>x. \<not> py_isspace x) (c # cs) # py_split (dropWhile (\<lambda>x. \<not> py_isspace x) cs))"
  by pat_completeness auto
termination
  by (relation "measure length") (auto simp: less_Suc_eq_le length_dropWhile_le)

fun py_join :: "string \<Rightarrow> string list \<Rightarrow> string" where
  \<comment> \<open>\<open>sep.join(ws)\<close>\<close>
  "py_join sep [] = []"
| "py_join sep [w] = w"
| "py_join sep (w # v # ws) = w @ sep @ py_join sep (v # ws)"

definition py_strip :: "string \<Rightarrow> string" where
  \<comment> \<open>\<open>s.strip()\<close>\<close>
  "py_strip s = rev (dropWhile py_isspace (rev (dropWhile py_isspace s)))"

definition py_slice_to :: "'a list \<Rightarrow> int \<Rightarrow> 'a list" where
  \<comment> \<open>\<open>s[:k]\<close>; a negative \<open>k\<close> counts from the end.\<close>
  "py_slice_to s k = (if 0 \<le> k then take (nat k) s else take (length s - nat (- k)) s)"

definition ascii_lowercase :: string where
  "ascii_lowercase = ''abcdefghijklmnopqrstuvwxyz''"

definition ascii_uppercase :: string where
  "ascii_uppercase = ''ABCDEFGHIJKLMNOPQRSTUVWXYZ''"

definition py_upper :: "char \<Rightarrow> char" where
  "py_upper c = (case map_of (zip ascii_lowercase ascii_uppercase) c of Some u \<Rightarrow> u | None \<Rightarrow> c)"

definition py_lower :: "char \<Rightarrow> char" where
  "py_lower c = (case map_of (zip ascii_uppercase ascii_lowercase) c of Some l \<Rightarrow> l | None \<Rightarrow> c)"

fun py_capitalize :: "string \<Rightarrow> string" where
  \<comment> \<open>\<open>s.capitalize()\<close>: first character upper case, the rest lower case.\<close>
  "py_capitalize [] = []"
| "py_capitalize (c # cs) = py_upper c # map py_lower cs"

fun find_sub :: "string \<Rightarrow> string \<Rightarrow> nat option" where
  \<comment> \<open>\<open>s.find(sub)\<close>: the index of the first occurrence, \<open>None\<close> for Python's -1.\<close>
  "find_sub sub [] = (if sub = [] then Some 0 else None)"
| "find_sub sub (c # cs) =
     (if prefix sub (c # cs) then Some 0 else map_option Suc (find_sub sub cs))"

definition py_in :: "string \<Rightarrow> string \<Rightarrow> bool" where
  \<comment> \<open>\<open>sub in s\<close>\<close>
  "py_in sub s = (find_sub sub s \<noteq> None)"

function py_split_sep :: "string \<Rightarrow> string \<Rightarrow> string list" where
  \<comment> \<open>\<open>s.split(sep)\<close> for a separator that is not empty (Python raises on the empty one;
     every separator of the services is a literal).\<close>
  "py_split_sep sep s =
     (if sep = [] then [s]
      else case find_sub sep s of
             None \<Rightarrow> [s]
           | Some i \<Rightarrow> take i s # py_split_sep sep (drop (i + length sep) s))"
  by pat_completeness auto
termination
proof (relation "measure (\<lambda>(sep, s). length s)")
  show "wf (measure (\<lambda>(sep, s). length s))" by simp
next
  fix sep s :: string and i :: nat
  assume sep: "sep \<noteq> []" and found: "find_sub sep s = Some i"
  have "i + length sep \<le> length s" using found
  proof (induction s arbitrary: i)
    case Nil
    then show ?case using sep by simp
  next
    case (Cons c cs)
    show ?case
    proof (cases "prefix sep (c # cs)")
      case True
      then have "i = 0" using Cons.prems by simp
      moreover have "length sep \<le> length (c # cs)"
        using True by (rule prefix_length_le)
      ultimately show ?thesis by simp
    next
      case False
      then obtain j where "find_sub sep cs = Some j" and "i = Suc j"
        using Cons.prems by auto
      then show ?thesis using Cons.IH by simp
    qed
  qed
  then show "((sep, drop (i + length sep) s), (sep, s)) \<in> measure (\<lambda>(sep, s). length s)"
    using sep by (cases sep) auto
qed

definition py_replace_char :: "char \<Rightarrow> char \<Rightarrow> string \<Rightarrow> string" where
  \<comment> \<open>\<open>s.replace(a, b)\<close> for one-character \<open>a\<close> and \<open>b\<close>\<close>
  "py_replace_char a b s = map (\<lambda>c. if c = a then b else c) s"

definition py_rsplit1_head :: "char \<Rightarrow> string \<Rightarrow> string" where
  \<comment> \<open>\<open>s.rsplit(c, 1)[0]\<close>: what stands before the last \<open>c\<close>, all of \<open>s\<close> when there is none.\<close>
  "py_rsplit1_head c s =
     (if c \<in> set s then rev (tl (dropWhile (\<lambda>x. x \<noteq> c) (rev s))) else s)"

definition py_index :: "char \<Rightarrow> string \<Rightarrow> nat" where
  \<comment> \<open>\<open>s.index(c)\<close>, called only where \<open>c in s\<close>\<close>
  "py_index c s = length (takeWhile (\<lambda>x. x \<noteq> c) s)"

definition py_rindex :: "char \<Rightarrow> string \<Rightarrow> nat" where
  \<comment> \<open>\<open>s.rindex(c)\<close>, called only where \<open>c in s\<close>\<close>
  "py_rindex c s = length s - 1 - length (takeWhile (\<lambda>x. x \<noteq> c) (rev s))"

definition py_slice :: "'a list \<Rightarrow> nat \<Rightarrow> nat \<Rightarrow> 'a list" where
  \<comment> \<open>\<open>s[i:j]\<close> for indices that are not negative\<close>
  "py_slice s i j = take (j - i) (drop i s)"

section \<open>Vision client: \<open>image_analysis_service.py\<close>\<close>

datatype py_exception =
  AttributeError | TypeError | IndexError | KeyError | ValueError | JSONDecodeError | HTTPError

definition then_exc :: "py_exception + 'a \<Rightarrow> ('a \<Rightarrow> py_exception + 'b) \<Rightarrow> py_exception + 'b" where
  \<comment> \<open>Sequencing: an exception of the first step ends the computation.\<close>
  "then_exc r f = (case r of Inl e \<Rightarrow> Inl e | Inr v \<Rightarrow> f v)"

fun all_exc :: "('a \<Rightarrow> py_exception + 'b) \<Rightarrow> 'a list \<Rightarrow> py_exception + 'b list" where
  \<comment> \<open>A list comprehension whose body may raise.\<close>
  "all_exc f [] = Inr []"
| "all_exc f (x # xs) = then_exc (f x) (\<lambda>y. then_exc (all_exc f xs) (\<lambda>ys. Inr (y # ys)))"

text \<open>The values \<open>json.loads\<close> and \<open>response.json()\<close> produce; \<open>JNull\<close> is Python's \<open>None\<close>.\<close>

datatype json =
  JNull | JBool bool | JNum real | JStr string | JArr "json list" | JObj "(string \<times> json) list"

fun py_truthy :: "json \<Rightarrow> bool" where
  "py_truthy JNull = False"
| "py_truthy (JBool b) = b"
| "py_truthy (JNum r) = (r \<noteq> 0)"
| "py_truthy (JStr s) = (s \<noteq> [])"
| "py_truthy (JArr xs) = (xs \<noteq> [])"
| "py_truthy (JObj kvs) = (kvs \<noteq> [])"

fun dict_get :: "json \<Rightarrow> string \<Rightarrow> json \<Rightarrow> py_exception + json" where
  \<comment> \<open>\<open>d.get(key, default)\<close>; only a dict has the method.\<close>
  "dict_get (JObj kvs) key dflt = Inr (case map_of kvs key of Some v \<Rightarrow> v | None \<Rightarrow> dflt)"
| "dict_get _ key dflt = Inl AttributeError"

fun subscript0 :: "json \<Rightarrow> py_exception + json" where
  \<comment> \<open>\<open>x[0]\<close>\<close>
  "subscript0 (JArr []) = Inl IndexError"
| "subscript0 (JArr (x # xs)) = Inr x"
| "subscript0 (JStr []) = Inl IndexError"
| "subscript0 (JStr (c # cs)) = Inr (JStr [c])"
| "subscript0 (JObj kvs) = Inl KeyError"
| "subscript0 _ = Inl TypeError"

fun slice5 :: "json \<Rightarrow> py_exception + json list" where
  \<comment> \<open>\<open>x[:5]\<close>, as the sequence the comprehension then iterates over\<close>
  "slice5 (JArr xs) = Inr (take 5 xs)"
| "slice5 (JStr s) = Inr (map (\<lambda>c. JStr [c]) (take 5 s))"
| "slice5 _ = Inl TypeError"

datatype http_outcome =
  Raised  \<comment> \<open>the request raised (time-out, connection error)\<close>
| Response int "json option"  \<comment> \<open>status code, and the body as \<open>response.json()\<close> reads it
                                  (\<open>None\<close> when that raises)\<close>

text \<open>What the vision client takes from outside the repository: the HTTP exchange for an
  image URL, \<open>json.loads\<close> (\<open>None\<close> for \<open>JSONDecodeError\<close>) and \<open>float\<close> on a string
  (\<open>None\<close> for \<open>ValueError\<close>).\<close>

record vision_env =
  post_chat :: "string \<Rightarrow> http_outcome"
  json_loads :: "string \<Rightarrow> json option"
  float_of_str :: "string \<Rightarrow> real option"

record analysis =
  a_title :: string
  a_content :: string
  a_tags :: "string list"
  a_category :: string
  a_confidence :: real

definition sanitize_text :: "string \<Rightarrow> int \<Rightarrow> string" where
  \<comment> \<open>\<open>_sanitize_text(text, max_length)\<close>\<close>
  "sanitize_text text max_length =
     (if text = [] then []
      else let cleaned = py_join '' '' (py_split text)
           in if int (length cleaned) > max_length
              then py_slice_to cleaned (max_length - 3) @ ''...''
              else cleaned)"


definition extract_title_from_filename :: "string \<Rightarrow> string" where
  \<comment> \<open>\<open>_extract_title_from_filename(filename)\<close>\<close>
  "extract_title_from_filename filename =
     (let name_without_ext =
            (if py_in ''.'' filename then py_rsplit1_head CHR ''.'' filename else filename);
          cleaned = py_replace_char CHR ''-'' CHR '' '' (py_replace_char CHR ''_'' CHR '' '' name_without_ext);
          title = py_join '' '' (map py_capitalize (py_split cleaned))
      in if title \<noteq> [] then title else ''Uploaded Image'')"

definition fallback_analysis :: "string \<Rightarrow> string \<Rightarrow> analysis" where
  \<comment> \<open>\<open>_fallback_analysis(filename, content="")\<close>\<close>
  "fallback_analysis filename content =
     \<lparr> a_title = extract_title_from_filename filename,
       a_content = (if content \<noteq> [] then take 500 content else ''Image uploaded from Telegram''),
       a_tags = [],
       a_category = ''Other'',
       a_confidence = 0 \<rparr>"

definition assistant_message_of :: "json \<Rightarrow> py_exception + json" where
  \<comment> \<open>\<open>data.get("choices", [{}])[0].get("message", {}).get("content")\<close>\<close>
  "assistant_message_of data =
     then_exc (dict_get data ''choices'' (JArr [JObj []])) (\<lambda>choices.
     then_exc (subscript0 choices) (\<lambda>choice.
     then_exc (dict_get choice ''message'' (JObj [])) (\<lambda>message.
     dict_get message ''content'' JNull)))"

definition nth_exc :: "'a list \<Rightarrow> nat \<Rightarrow> py_exception + 'a" where
  \<comment> \<open>\<open>xs[i]\<close>\<close>
  "nth_exc xs i = (if i < length xs then Inr (xs ! i) else Inl IndexError)"

definition fence :: string where
  "fence = [CHR 0x60, CHR 0x60, CHR 0x60]"

definition json_candidate :: "string \<Rightarrow> py_exception + string" where
  \<comment> \<open>The text handed to \<open>json.loads\<close>: what stands inside a fenced block if there is one,
     then the span from the first opening to the last closing brace if both occur.\<close>
  "json_candidate assistant_message =
     then_exc
       (if py_in (fence @ ''json'') assistant_message then
          then_exc (nth_exc (py_split_sep (fence @ ''json'') assistant_message) 1) (\<lambda>inner.
          then_exc (nth_exc (py_split_sep fence inner) 0) (\<lambda>block. Inr (py_strip block)))
        else if py_in fence assistant_message then
          then_exc (nth_exc (py_split_sep fence assistant_message) 1) (\<lambda>inner.
          then_exc (nth_exc (py_split_sep fence inner) 0) (\<lambda>block. Inr (py_strip block)))
        else Inr (py_strip assistant_message))
       (\<lambda>json_str.
          if py_in ''{'' json_str \<and> py_in ''}'' json_str
          then Inr (py_slice json_str (py_index CHR ''{'' json_str) (py_rindex CHR ''}'' json_str + 1))
          else Inr json_str)"

definition sanitize_value :: "json \<Rightarrow> int \<Rightarrow> py_exception + string" where
  \<comment> \<open>\<open>_sanitize_text\<close> on a value of the parsed reply: a falsy value gives the empty
     string, a string is sanitised, anything else has no \<open>split\<close> method.\<close>
  "sanitize_value v max_length =
     (if \<not> py_truthy v then Inr []
      else case v of JStr s \<Rightarrow> Inr (sanitize_text s max_length) | _ \<Rightarrow> Inl AttributeError)"

fun py_float :: "vision_env \<Rightarrow> json \<Rightarrow> py_exception + real" where
  \<comment> \<open>\<open>float(x)\<close>\<close>
  "py_float env (JNum r) = Inr r"
| "py_float env (JBool b) = Inr (if b then 1 else 0)"
| "py_float env (JStr s) = (case float_of_str env s of Some r \<Rightarrow> Inr r | None \<Rightarrow> Inl ValueError)"
| "py_float env _ = Inl TypeError"

definition validated :: "vision_env \<Rightarrow> string \<Rightarrow> json \<Rightarrow> py_exception + analysis" where
  \<comment> \<open>The dict built under \<open># Validate and sanitize\<close>, its entries evaluated in order.\<close>
  "validated env filename an =
     then_exc (dict_get an ''title'' (JStr (extract_title_from_filename filename))) (\<lambda>t.
     then_exc (sanitize_value t 100) (\<lambda>title.
     then_exc (dict_get an ''content'' (JStr [])) (\<lambda>c.
     then_exc (sanitize_value c 500) (\<lambda>content.
     then_exc (dict_get an ''tags'' (JArr [])) (\<lambda>ts.
     then_exc (slice5 ts) (\<lambda>first5.
     then_exc (all_exc (\<lambda>tag. sanitize_value tag 30) first5) (\<lambda>tags.
     then_exc (dict_get an ''category'' (JStr ''Other'')) (\<lambda>cat.
     then_exc (sanitize_value cat 50) (\<lambda>category.
     then_exc (dict_get an ''confidence'' (JNum 0.5)) (\<lambda>cf.
     then_exc (py_float env cf) (\<lambda>conf.
     Inr \<lparr> a_title = title, a_content = content, a_tags = tags, a_category = category,
           a_confidence = max 0 (min 1 conf) \<rparr>)))))))))))"

definition analyze_image_from_url :: "vision_env \<Rightarrow> string \<Rightarrow> string \<Rightarrow> analysis" where
  \<comment> \<open>\<open>analyze_image_from_url(image_url, filename)\<close>. The outer \<open>except Exception\<close> turns
     every exception into \<open>_fallback_analysis(filename)\<close>; the inner handler, for
     \<open>JSONDecodeError\<close> alone, passes the reply on as the content.\<close>
  "analyze_image_from_url env image_url filename =
     (case post_chat env image_url of
        Raised \<Rightarrow> fallback_analysis filename []
      | Response status_code body \<Rightarrow>
          if status_code \<noteq> 200 then fallback_analysis filename []
          else case body of
            None \<Rightarrow> fallback_analysis filename []
          | Some data \<Rightarrow>
             (case assistant_message_of data of
                Inl e \<Rightarrow> fallback_analysis filename []
              | Inr assistant_message \<Rightarrow>
                  if \<not> py_truthy assistant_message then fallback_analysis filename []
                  else case assistant_message of
                    JStr msg \<Rightarrow>
                      (case json_candidate msg of
                         Inl e \<Rightarrow> fallback_analysis filename []
                       | Inr json_str \<Rightarrow>
                          (case json_loads env json_str of
                             None \<Rightarrow> fallback_analysis filename msg
                           | Some an \<Rightarrow>
                              (case validated env filename an of
                                 Inl e \<Rightarrow> fallback_analysis filename []
                               | Inr result \<Rightarrow> result)))
                  | _ \<Rightarrow> fallback_analysis filename []))"

text \<open>The title as the specification words it: strip the extension, replace the separators
  \<open>_\<close> and \<open>-\<close> with spaces, title-case each word.\<close>

definition spec_title :: "string \<Rightarrow> string" where
  "spec_title filename =
     py_join '' '' (map py_capitalize (py_split
       (map (\<lambda>c. if c = CHR ''_'' \<or> c = CHR ''-'' then CHR '' '' else c)
            (py_rsplit1_head CHR ''.'' filename))))"

section \<open>The database\<close>

text \<open>
  The tables the services read and write, each a list of rows in insertion order. A
  timestamp is a number of microseconds. Column names carry a prefix per table, since the
  tables share names such as \<open>user_id\<close>.
\<close>

record auth_code =
  ac_user_id :: string
  ac_code :: string
  ac_created_at :: int
  ac_expires_at :: int
  ac_is_used :: bool

record connection =
  cn_user_id :: string
  cn_telegram_user_id :: string
  cn_telegram_username :: "string option"
  cn_telegram_first_name :: "string option"
  cn_telegram_last_name :: "string option"
  cn_is_active :: bool
  cn_connected_at :: int

text \<open>What a statement binds to the \<open>embedding\<close> column: nothing, a text, or a Python list
  of floats. The row keeps the bound value; what the driver does with it is outside the
  repository.\<close>

datatype sql_param = SqlNull | SqlText string | SqlFloats "real list"

record memory =
  mem_id :: nat
  mem_user_id :: string
  mem_title :: string
  mem_content :: string
  mem_type :: string
  mem_embedding :: sql_param
  mem_index_position :: int
  mem_source :: string
  mem_created_at :: int

record memory_file =
  mf_memory_id :: nat
  mf_file_name :: string
  mf_file_path :: string
  mf_file_type :: string
  mf_file_size :: nat

record database =
  telegram_auth_codes :: "auth_code list"
  telegram_connections :: "connection list"
  memories :: "memory list"
  memory_files :: "memory_file list"
  next_memory_id :: nat  \<comment> \<open>the source of the \<open>id\<close> that \<open>INSERT ... RETURNING id\<close> hands out\<close>

definition order_by_desc :: "('r \<Rightarrow> int) \<Rightarrow> 'r list \<Rightarrow> 'r list" where
  \<comment> \<open>\<open>ORDER BY key DESC\<close>; rows with equal keys stay in table order, one of the orders SQL
     allows.\<close>
  "order_by_desc key rows = sort_key (\<lambda>r. - key r) rows"

definition connections_unique :: "database \<Rightarrow> bool" where
  \<comment> \<open>The unique index on \<open>telegram_user_id\<close> that \<open>ON CONFLICT (telegram_user_id)\<close> names.\<close>
  "connections_unique db = distinct (map cn_telegram_user_id (telegram_connections db))"

section \<open>Auth service: \<open>auth_service.py\<close>\<close>

record settings =
  TELEGRAM_BOT_TOKEN :: string
  APP_BASE_URL :: string
  AUTH_CODE_EXPIRY_MINUTES :: int
  AUTH_CODE_LENGTH :: int

definition minutes :: "int \<Rightarrow> int" where
  \<comment> \<open>\<open>timedelta(minutes=n)\<close> in microseconds\<close>
  "minutes n = n * 60000000"

definition generate_auth_code :: "settings \<Rightarrow> int \<Rightarrow> string \<Rightarrow> string \<Rightarrow> database \<Rightarrow> database \<times> string" where
  \<comment> \<open>\<open>generate_auth_code(user_id, db)\<close> at time \<open>now\<close>; \<open>code\<close> is the string the random
     choices produce. Modelled from the spec: the defaults of the columns the \<open>INSERT\<close>
     leaves out (\<open>created_at\<close> the current time, \<open>is_used\<close> false) are not in the source.\<close>
  "generate_auth_code cfg now code user_id db =
     (let expires_at = now + minutes (AUTH_CODE_EXPIRY_MINUTES cfg);
          invalidated = map (\<lambda>r. if ac_user_id r = user_id \<and> ac_is_used r = False
                                   then r\<lparr>ac_is_used := True\<rparr> else r)
                            (telegram_auth_codes db);
          inserted = invalidated @
                     [\<lparr> ac_user_id = user_id, ac_code = code, ac_created_at = now,
                        ac_expires_at = expires_at, ac_is_used = False \<rparr>]
      in (db\<lparr>telegram_auth_codes := inserted\<rparr>, code))"

datatype auth_error = InvalidCode | CodeAlreadyUsed | CodeExpired | AlreadyConnectedElsewhere

fun error_text :: "auth_error \<Rightarrow> string" where
  \<comment> \<open>the \<open>"error"\<close> entry of the returned dict\<close>
  "error_text InvalidCode = ''Invalid code''"
| "error_text CodeAlreadyUsed = ''Code already used''"
| "error_text CodeExpired = ''Code expired''"
| "error_text AlreadyConnectedElsewhere =
     ''Telegram account already connected to another MemoryVault account''"

definition latest_code_row :: "string \<Rightarrow> database \<Rightarrow> auth_code option" where
  \<comment> \<open>\<open>SELECT ... FROM telegram_auth_codes WHERE code = $1 ORDER BY created_at DESC LIMIT 1\<close>\<close>
  "latest_code_row auth_code db =
     (case order_by_desc ac_created_at
             (filter (\<lambda>r. ac_code r = auth_code) (telegram_auth_codes db)) of
        [] \<Rightarrow> None
      | r # rs \<Rightarrow> Some r)"

definition active_connection :: "string \<Rightarrow> database \<Rightarrow> connection option" where
  \<comment> \<open>\<open>SELECT ... FROM telegram_connections WHERE telegram_user_id = $1 AND is_active = true\<close>\<close>
  "active_connection telegram_user_id db =
     find (\<lambda>c. cn_telegram_user_id c = telegram_user_id \<and> cn_is_active c)
          (telegram_connections db)"

definition upsert_connection ::
  "int \<Rightarrow> string \<Rightarrow> string \<Rightarrow> string option \<Rightarrow> string option \<Rightarrow> string option \<Rightarrow>
   connection list \<Rightarrow> connection list" where
  \<comment> \<open>\<open>INSERT INTO telegram_connections ... ON CONFLICT (telegram_user_id) DO UPDATE SET ...\<close>.
     Modelled from the spec: the default of \<open>connected_at\<close> for a new row, the current
     time, is not in the source.\<close>
  "upsert_connection now user_id telegram_user_id telegram_username telegram_first_name
       telegram_last_name rows =
     (if \<exists>c \<in> set rows. cn_telegram_user_id c = telegram_user_id
      then map (\<lambda>c. if cn_telegram_user_id c = telegram_user_id
                     then c\<lparr> cn_user_id := user_id,
                            cn_telegram_username := telegram_username,
                            cn_telegram_first_name := telegram_first_name,
                            cn_telegram_last_name := telegram_last_name,
                            cn_is_active := True,
                            cn_connected_at := now \<rparr>
                     else c) rows
      else rows @ [\<lparr> cn_user_id = user_id, cn_telegram_user_id = telegram_user_id,
                      cn_telegram_username = telegram_username,
                      cn_telegram_first_name = telegram_first_name,
                      cn_telegram_last_name = telegram_last_name,
                      cn_is_active = True, cn_connected_at = now \<rparr>])"

definition verify_and_connect ::
  "int \<Rightarrow> string \<Rightarrow> string \<Rightarrow> string option \<Rightarrow> string option \<Rightarrow> string option \<Rightarrow>
   database \<Rightarrow> database \<times> (auth_error + string)" where
  \<comment> \<open>\<open>verify_and_connect(auth_code, telegram_user_id, ...)\<close> at time \<open>now\<close>: the database
     after the call, and the error or the connected \<open>user_id\<close>.\<close>
  "verify_and_connect now auth_code telegram_user_id telegram_username telegram_first_name
       telegram_last_name db =
     (case latest_code_row auth_code db of
        None \<Rightarrow> (db, Inl InvalidCode)
      | Some row \<Rightarrow>
          if ac_is_used row then (db, Inl CodeAlreadyUsed)
          else if now > ac_expires_at row then (db, Inl CodeExpired)
          else let user_id = ac_user_id row;
                   existing = active_connection telegram_user_id db
               in if existing \<noteq> None \<and> cn_user_id (the existing) \<noteq> user_id
                  then (db, Inl AlreadyConnectedElsewhere)
                  else (db\<lparr> telegram_connections :=
                              upsert_connection now user_id telegram_user_id telegram_username
                                telegram_first_name telegram_last_name (telegram_connections db),
                            telegram_auth_codes :=
                              map (\<lambda>r. if ac_code r = auth_code then r\<lparr>ac_is_used := True\<rparr> else r)
                                  (telegram_auth_codes db) \<rparr>,
                        Inr user_id))"

definition is_user_connected :: "string \<Rightarrow> database \<Rightarrow> bool" where
  "is_user_connected telegram_user_id db = (active_connection telegram_user_id db \<noteq> None)"

datatype connection_status = NotConnected | ConnectedAs string int

definition get_connection_status_by_telegram :: "string \<Rightarrow> database \<Rightarrow> connection_status" where
  \<comment> \<open>\<open>{"connected": False}\<close>, or \<open>{"connected": True, "user_id": ..., "connected_at": ...}\<close>\<close>
  "get_connection_status_by_telegram telegram_user_id db =
     (case active_connection telegram_user_id db of
        None \<Rightarrow> NotConnected
      | Some row \<Rightarrow> ConnectedAs (cn_user_id row) (cn_connected_at row))"

definition disconnect_user :: "string \<Rightarrow> database \<Rightarrow> database \<times> bool" where
  "disconnect_user user_id db =
     (db\<lparr> telegram_connections :=
            map (\<lambda>c. if cn_user_id c = user_id then c\<lparr>cn_is_active := False\<rparr> else c)
                (telegram_connections db) \<rparr>, True)"

section \<open>Evaluation rules\<close>

lemmas py_eval = py_isspace_def whitespace_def py_upper_def py_lower_def ascii_lowercase_def
  ascii_uppercase_def

section \<open>Sanitising text\<close>


lemma py_isspace_blank: "py_isspace CHR '' ''"
  by (simp add: py_isspace_def whitespace_def)

lemma py_split_words: "w \<in> set (py_split s) \<Longrightarrow> w \<noteq> [] \<and> (\<forall>c\<in>set w. \<not> py_isspace c)"
proof (induction s rule: py_split.induct)
  case 1
  then show ?case by simp
next
  case (2 c cs)
  show ?case
  proof (cases "py_isspace c")
    case True
    with 2 show ?thesis by simp
  next
    case False
    with 2(3) have "w = takeWhile (\<lambda>x. \<not> py_isspace x) (c # cs)
        \<or> w \<in> set (py_split (dropWhile (\<lambda>x. \<not> py_isspace x) cs))"
      by simp
    then show ?thesis
    proof
      assume w: "w = takeWhile (\<lambda>x. \<not> py_isspace x) (c # cs)"
      then have "w \<noteq> []" using False by simp
      moreover have "\<forall>x\<in>set w. \<not> py_isspace x"
        unfolding w using set_takeWhileD by fastforce
      ultimately show ?thesis by simp
    next
      assume "w \<in> set (py_split (dropWhile (\<lambda>x. \<not> py_isspace x) cs))"
      with 2(2)[OF False] show ?thesis by simp
    qed
  qed
qed

lemma py_split_word_then_space:
  assumes "w \<noteq> []" and "\<forall>c\<in>set w. \<not> py_isspace c" and "py_isspace d"
  shows "py_split (w @ d # r) = w # py_split r"
proof -
  obtain a as where w: "w = a # as" using assms(1) by (cases w) auto
  have "takeWhile (\<lambda>x. \<not> py_isspace x) (w @ d # r) = w"
    using assms by (simp add: takeWhile_append2)
  moreover have "dropWhile (\<lambda>x. \<not> py_isspace x) (as @ d # r) = d # r"
    using assms w by (simp add: dropWhile_append2)
  ultimately show ?thesis using w assms by simp
qed

lemma py_split_single_word:
  assumes "w \<noteq> []" and "\<forall>c\<in>set w. \<not> py_isspace c"
  shows "py_split w = [w]"
proof -
  obtain a as where w: "w = a # as" using assms(1) by (cases w) auto
  have t: "takeWhile (\<lambda>x. \<not> py_isspace x) (a # as) = a # as" using assms w by simp
  have d: "dropWhile (\<lambda>x. \<not> py_isspace x) as = []" using assms w by simp
  have "\<not> py_isspace a" using assms w by simp
  then have "py_split (a # as) = (a # as) # py_split []"
    by (simp only: py_split.simps t d if_False)
  then show ?thesis using w by simp
qed

lemma py_split_join:
  "\<forall>w\<in>set ws. w \<noteq> [] \<and> (\<forall>c\<in>set w. \<not> py_isspace c) \<Longrightarrow> py_split (py_join '' '' ws) = ws"
proof (induction "'' ''" ws rule: py_join.induct)
  case 1 show ?case by simp
next
  case (2 w) then show ?case by (simp add: py_split_single_word)
next
  case (3 w v ws)
  then show ?case by (simp add: py_split_word_then_space py_isspace_blank)
qed

lemma py_join_only_blanks:
  "\<forall>w\<in>set ws. \<forall>c\<in>set w. \<not> py_isspace c \<Longrightarrow> c \<in> set (py_join '' '' ws) \<Longrightarrow> py_isspace c \<Longrightarrow> c = CHR '' ''"
  by (induction "'' ''" ws rule: py_join.induct) auto

lemma py_join_hd:
  "ws \<noteq> [] \<Longrightarrow> \<forall>w\<in>set ws. w \<noteq> [] \<and> (\<forall>c\<in>set w. \<not> py_isspace c) \<Longrightarrow>
     py_join '' '' ws \<noteq> [] \<and> \<not> py_isspace (hd (py_join '' '' ws))"
  by (induction "'' ''" ws rule: py_join.induct) (auto simp: hd_append)

lemma successively_True: "successively (\<lambda>x y. True) xs"
  by (induction xs rule: induct_list012) auto

lemma successively_word:
  "\<forall>c\<in>set w. \<not> py_isspace c \<Longrightarrow> successively (\<lambda>a b. py_isspace a \<longrightarrow> \<not> py_isspace b) w"
  by (induction w rule: induct_list012) auto

lemma py_join_single_blanks:
  "\<forall>w\<in>set ws. w \<noteq> [] \<and> (\<forall>c\<in>set w. \<not> py_isspace c) \<Longrightarrow>
     successively (\<lambda>a b. py_isspace a \<longrightarrow> \<not> py_isspace b) (py_join '' '' ws)"
proof (induction "'' ''" ws rule: py_join.induct)
  case 1 show ?case by simp
next
  case (2 w) then show ?case by (simp add: successively_word)
next
  case (3 w v ws)
  have hd: "py_join '' '' (v # ws) \<noteq> [] \<and> \<not> py_isspace (hd (py_join '' '' (v # ws)))"
    using 3(2) py_join_hd[of "v # ws"] by simp
  have tl: "successively (\<lambda>a b. py_isspace a \<longrightarrow> \<not> py_isspace b) (py_join '' '' (v # ws))"
    using 3 by simp
  have w: "w \<noteq> []" "\<forall>c\<in>set w. \<not> py_isspace c" using 3(2) by auto
  have "successively (\<lambda>a b. py_isspace a \<longrightarrow> \<not> py_isspace b) (CHR '' '' # py_join '' '' (v # ws))"
    using hd tl by (cases "py_join '' '' (v # ws)") auto
  then show ?case using w
    by (simp add: successively_append_iff successively_word successively_True)
qed

lemma py_join_ends:
  "ws \<noteq> [] \<Longrightarrow> \<forall>w\<in>set ws. w \<noteq> [] \<and> (\<forall>c\<in>set w. \<not> py_isspace c) \<Longrightarrow>
     \<not> py_isspace (last (py_join '' '' ws))"
  by (induction "'' ''" ws rule: py_join.induct) (auto simp: py_join_hd)

text \<open>
  Claim C9. For each of the four maximum lengths the vision client uses (title 100, content
  500, tag 30, category 50), \<open>_sanitize_text\<close> first rebuilds the text from its white-space
  separated words with single blanks between them. If that normalised text is longer than
  the maximum, the result is its first \<open>max - 3\<close> characters followed by \<open>...\<close>, and has
  exactly \<open>max\<close> characters; otherwise the result is the normalised text itself. The
  normalised text has the words of the input, no white space other than the blank, and no
  two white-space characters in a row.
\<close>

theorem sanitize_text_truncates:
  assumes "m \<in> {100, 500, 30, 50}"
  shows "(int (length (py_join '' '' (py_split text))) > m \<longrightarrow>
            sanitize_text text m = take (nat (m - 3)) (py_join '' '' (py_split text)) @ ''...''
          \<and> int (length (sanitize_text text m)) = m)
       \<and> (int (length (py_join '' '' (py_split text))) \<le> m \<longrightarrow>
            sanitize_text text m = py_join '' '' (py_split text))
       \<and> py_split (py_join '' '' (py_split text)) = py_split text
       \<and> (\<forall>c\<in>set (py_join '' '' (py_split text)). py_isspace c \<longrightarrow> c = CHR '' '')
       \<and> successively (\<lambda>a b. py_isspace a \<longrightarrow> \<not> py_isspace b) (py_join '' '' (py_split text))"
proof -
  let ?cleaned = "py_join '' '' (py_split text)"
  have words: "\<forall>w\<in>set (py_split text). w \<noteq> [] \<and> (\<forall>c\<in>set w. \<not> py_isspace c)"
    using py_split_words by blast
  have m3: "3 \<le> m" using assms by auto
  have e: "text = [] \<Longrightarrow> ?cleaned = []" by simp
  have long: "int (length ?cleaned) > m \<Longrightarrow>
      sanitize_text text m = take (nat (m - 3)) ?cleaned @ ''...''"
  proof -
    assume l: "int (length ?cleaned) > m"
    then have "text \<noteq> []" using e m3 by auto
    then show ?thesis using l m3 by (simp add: sanitize_text_def py_slice_to_def)
  qed
  have len: "int (length ?cleaned) > m \<Longrightarrow> int (length (sanitize_text text m)) = m"
    using long m3 by (simp add: min_def)
  have short: "int (length ?cleaned) \<le> m \<Longrightarrow> sanitize_text text m = ?cleaned"
    using e by (cases "text = []") (simp_all add: sanitize_text_def)
  have only: "\<forall>c\<in>set ?cleaned. py_isspace c \<longrightarrow> c = CHR '' ''"
    using py_join_only_blanks[of "py_split text"] words by blast
  show ?thesis
    using long len short py_split_join[OF words] only py_join_single_blanks[OF words]
    by (intro conjI impI) 
qed

theorem sanitize_text_truncates_witness:
  "(30::int) \<in> {100, 500, 30, 50}
   \<and> sanitize_text ''sunset   over the  harbour with two boats'' 30 = ''sunset over the harbour wit...''
   \<and> length (sanitize_text ''sunset   over the  harbour with two boats'' 30) = 30"
proof -
  have m: "(30::int) \<in> {100, 500, 30, 50}" by simp
  have c: "py_join '' '' (py_split ''sunset   over the  harbour with two boats'')
             = ''sunset over the harbour with two boats''"
    by (simp add: py_isspace_def whitespace_def)
  have "sanitize_text ''sunset   over the  harbour with two boats'' 30
          = take (nat (30 - 3)) (py_join '' '' (py_split ''sunset   over the  harbour with two boats'')) @ ''...''"
    using sanitize_text_truncates[OF m, of "''sunset   over the  harbour with two boats''"]
    unfolding c by simp
  then show ?thesis unfolding c by simp
qed
section \<open>The fallback of the vision client\<close>


lemma find_sub_single: "(find_sub [c] s = None) = (c \<notin> set s)"
  by (induction s) auto

lemma extract_title_spec:
  "extract_title_from_filename filename =
     (if spec_title filename = [] then ''Uploaded Image'' else spec_title filename)"
proof -
  have ext: "(if py_in ''.'' filename then py_rsplit1_head CHR ''.'' filename else filename)
               = py_rsplit1_head CHR ''.'' filename"
    by (simp add: py_in_def find_sub_single py_rsplit1_head_def)
  have rep: "py_replace_char CHR ''-'' CHR '' '' (py_replace_char CHR ''_'' CHR '' '' s)
               = map (\<lambda>c. if c = CHR ''_'' \<or> c = CHR ''-'' then CHR '' '' else c) s" for s
    by (induction s) (auto simp: py_replace_char_def)
  show ?thesis
    unfolding extract_title_from_filename_def spec_title_def ext rep Let_def by simp
qed

lemma fallback_fields:
  "a_confidence (fallback_analysis filename c) = 0"
  "a_tags (fallback_analysis filename c) = []"
  "a_category (fallback_analysis filename c) = ''Other''"
  "a_title (fallback_analysis filename c) = extract_title_from_filename filename"
  by (simp_all add: fallback_analysis_def)

text \<open>
  Claim C8, as amended. In every failure mode of the vision call (the request raises, the
  status is not 200, the body cannot be read, the reply has no message, or \<open>json.loads\<close>
  rejects the text of the message) \<open>analyze_image_from_url\<close> returns the fallback: confidence
  0, no tags, category \<open>Other\<close>, and a title computed from the file name alone. The title
  is the one the specification describes (extension stripped, \<open>_\<close> and \<open>-\<close> replaced with
  spaces, each word capitalised) whenever that leaves at least one word, and
  \<open>Uploaded Image\<close> otherwise.
\<close>

theorem describe_fallback:
  assumes "post_chat env image_url = Raised
         \<or> (\<exists>status body. post_chat env image_url = Response status body \<and> status \<noteq> 200)
         \<or> post_chat env image_url = Response 200 None
         \<or> (\<exists>data e. post_chat env image_url = Response 200 (Some data)
               \<and> assistant_message_of data = Inl e)
         \<or> (\<exists>data m. post_chat env image_url = Response 200 (Some data)
               \<and> assistant_message_of data = Inr m \<and> \<not> py_truthy m)
         \<or> (\<exists>data msg json_str. post_chat env image_url = Response 200 (Some data)
               \<and> assistant_message_of data = Inr (JStr msg) \<and> msg \<noteq> []
               \<and> json_candidate msg = Inr json_str \<and> json_loads env json_str = None)"
  shows "a_confidence (analyze_image_from_url env image_url filename) = 0
       \<and> a_tags (analyze_image_from_url env image_url filename) = []
       \<and> a_category (analyze_image_from_url env image_url filename) = ''Other''
       \<and> a_title (analyze_image_from_url env image_url filename)
           = (if spec_title filename = [] then ''Uploaded Image'' else spec_title filename)"
proof -
  have "\<exists>c. analyze_image_from_url env image_url filename = fallback_analysis filename c"
    using assms by (auto simp: analyze_image_from_url_def)
  then obtain c where "analyze_image_from_url env image_url filename = fallback_analysis filename c" ..
  then show ?thesis
    by (simp add: fallback_fields extract_title_spec)
qed


theorem describe_fallback_witness:
  "a_title (analyze_image_from_url
       \<lparr> post_chat = (\<lambda>url. Response 200 (Some (JObj [(''choices'',
            JArr [JObj [(''message'', JObj [(''content'', JStr ''a boat'')])]])]))),
         json_loads = (\<lambda>s. None), float_of_str = (\<lambda>s. None) \<rparr>
       ''https://files/photo'' ''my_trip-photo.jpg'') = ''My Trip Photo''"
proof -
  let ?data = "JObj [(''choices'', JArr [JObj [(''message'', JObj [(''content'', JStr ''a boat'')])]])]"
  let ?env = "\<lparr> post_chat = (\<lambda>url. Response 200 (Some ?data)),
         json_loads = (\<lambda>s. None), float_of_str = (\<lambda>s. None) \<rparr>"
  have m: "assistant_message_of ?data = Inr (JStr ''a boat'')"
    by (simp add: assistant_message_of_def then_exc_def)
  have c: "json_candidate ''a boat'' = Inr ''a boat''"
    by (simp add: json_candidate_def then_exc_def py_in_def fence_def py_strip_def py_eval)
  have t: "spec_title ''my_trip-photo.jpg'' = ''My Trip Photo''"
    by (simp add: spec_title_def py_rsplit1_head_def py_eval)
  have "post_chat ?env ''https://files/photo'' = Response 200 (Some ?data)
        \<and> assistant_message_of ?data = Inr (JStr ''a boat'') \<and> ''a boat'' \<noteq> []
        \<and> json_candidate ''a boat'' = Inr ''a boat'' \<and> json_loads ?env ''a boat'' = None"
    using m c by simp
  then have "\<exists>data msg json_str. post_chat ?env ''https://files/photo'' = Response 200 (Some data)
               \<and> assistant_message_of data = Inr (JStr msg) \<and> msg \<noteq> []
               \<and> json_candidate msg = Inr json_str \<and> json_loads ?env json_str = None"
    by blast
  then show ?thesis
    using describe_fallback[of ?env "''https://files/photo''" "''my_trip-photo.jpg''"] t
    by simp
qed

text \<open>
  The claim as stated has the title always equal to the specification's derivation. For a
  file name made of separators only that derivation is empty, and the code puts its default
  title instead.
\<close>

theorem describe_title_counterexample:
  "a_title (analyze_image_from_url
       \<lparr> post_chat = (\<lambda>url. Raised), json_loads = (\<lambda>s. None), float_of_str = (\<lambda>s. None) \<rparr>
       ''https://files/photo'' ''_.jpg'') \<noteq> spec_title ''_.jpg''"
  by (simp add: analyze_image_from_url_def fallback_analysis_def extract_title_from_filename_def
      spec_title_def py_in_def py_rsplit1_head_def py_replace_char_def py_eval)
section \<open>Verification failures\<close>


lemma order_by_desc_set [simp]: "set (order_by_desc k rows) = set rows"
  by (simp add: order_by_desc_def)

lemma latest_code_row_None:
  "(latest_code_row code db = None) = (\<forall>r\<in>set (telegram_auth_codes db). ac_code r \<noteq> code)"
proof -
  let ?m = "filter (\<lambda>r. ac_code r = code) (telegram_auth_codes db)"
  have "(order_by_desc ac_created_at ?m = []) = (?m = [])"
    by (metis order_by_desc_set set_empty)
  then show ?thesis
    by (auto simp: latest_code_row_def filter_empty_conv split: list.splits)
qed

lemma latest_code_row_Some:
  assumes "latest_code_row code db = Some row"
  shows "row \<in> set (telegram_auth_codes db) \<and> ac_code row = code
       \<and> (\<forall>r\<in>set (telegram_auth_codes db). ac_code r = code \<longrightarrow> ac_created_at r \<le> ac_created_at row)"
proof -
  let ?m = "filter (\<lambda>r. ac_code r = code) (telegram_auth_codes db)"
  obtain rs where o: "order_by_desc ac_created_at ?m = row # rs"
    using assms by (auto simp: latest_code_row_def split: list.splits)
  have "row \<in> set (order_by_desc ac_created_at ?m)" using o by simp
  then have mem: "row \<in> set ?m" by simp
  have "sorted (map (\<lambda>r. - ac_created_at r) (order_by_desc ac_created_at ?m))"
    by (simp add: order_by_desc_def)
  then have "\<forall>r\<in>set rs. - ac_created_at row \<le> - ac_created_at r"
    unfolding o by simp
  moreover have "set ?m = insert row (set rs)"
    using o by (metis order_by_desc_set list.simps(15))
  ultimately have "\<forall>r\<in>set ?m. ac_created_at r \<le> ac_created_at row" by auto
  then show ?thesis using mem by auto
qed

text \<open>
  Claim C1. The lookup takes a row with the given code and the greatest creation time, and
  finds none exactly when no row has the code. \<open>verify_and_connect\<close> fails with
  \<open>InvalidCode\<close> when the lookup finds no row; with \<open>CodeAlreadyUsed\<close> when the row found is
  flagged used, whether or not it has expired; with \<open>CodeExpired\<close> when the row is unused and
  the current time exceeds its expiry. Whenever the call fails, the database is the one it
  was given: no connection is written and no code is consumed.
\<close>

theorem verify_and_connect_rejects:
  "(latest_code_row auth_code db = None
      \<longleftrightarrow> (\<forall>r\<in>set (telegram_auth_codes db). ac_code r \<noteq> auth_code))
   \<and> (\<forall>row. latest_code_row auth_code db = Some row \<longrightarrow>
         row \<in> set (telegram_auth_codes db) \<and> ac_code row = auth_code
         \<and> (\<forall>r\<in>set (telegram_auth_codes db).
               ac_code r = auth_code \<longrightarrow> ac_created_at r \<le> ac_created_at row))
   \<and> (latest_code_row auth_code db = None \<longrightarrow>
         verify_and_connect now auth_code tg_id uname fname lname db = (db, Inl InvalidCode))
   \<and> (\<forall>row. latest_code_row auth_code db = Some row \<and> ac_is_used row \<longrightarrow>
         verify_and_connect now auth_code tg_id uname fname lname db = (db, Inl CodeAlreadyUsed))
   \<and> (\<forall>row. latest_code_row auth_code db = Some row \<and> \<not> ac_is_used row
             \<and> now > ac_expires_at row \<longrightarrow>
         verify_and_connect now auth_code tg_id uname fname lname db = (db, Inl CodeExpired))
   \<and> (\<forall>e. snd (verify_and_connect now auth_code tg_id uname fname lname db) = Inl e \<longrightarrow>
         fst (verify_and_connect now auth_code tg_id uname fname lname db) = db)"
proof (intro conjI allI impI)
  show "(latest_code_row auth_code db = None)
      = (\<forall>r\<in>set (telegram_auth_codes db). ac_code r \<noteq> auth_code)"
    by (rule latest_code_row_None)
next
  fix row assume "latest_code_row auth_code db = Some row"
  from latest_code_row_Some[OF this]
  show "row \<in> set (telegram_auth_codes db)" "ac_code row = auth_code"
    "\<forall>r\<in>set (telegram_auth_codes db).
               ac_code r = auth_code \<longrightarrow> ac_created_at r \<le> ac_created_at row"
    by blast+
next
  assume "latest_code_row auth_code db = None"
  then show "verify_and_connect now auth_code tg_id uname fname lname db = (db, Inl InvalidCode)"
    by (simp add: verify_and_connect_def)
next
  fix row assume "latest_code_row auth_code db = Some row \<and> ac_is_used row"
  then show "verify_and_connect now auth_code tg_id uname fname lname db = (db, Inl CodeAlreadyUsed)"
    by (simp add: verify_and_connect_def)
next
  fix row assume "latest_code_row auth_code db = Some row \<and> \<not> ac_is_used row
             \<and> now > ac_expires_at row"
  then show "verify_and_connect now auth_code tg_id uname fname lname db = (db, Inl CodeExpired)"
    by (simp add: verify_and_connect_def)
next
  fix e assume "snd (verify_and_connect now auth_code tg_id uname fname lname db) = Inl e"
  then show "fst (verify_and_connect now auth_code tg_id uname fname lname db) = db"
    by (auto simp: verify_and_connect_def Let_def split: option.splits if_splits)
qed


theorem verify_and_connect_rejects_witness:
  "verify_and_connect 2000 ''K7Q2ZD'' ''42'' None None None
     \<lparr> telegram_auth_codes =
         [\<lparr> ac_user_id = ''u1'', ac_code = ''K7Q2ZD'', ac_created_at = 10, ac_expires_at = 1000,
            ac_is_used = True \<rparr>],
       telegram_connections = [], memories = [], memory_files = [], next_memory_id = 0 \<rparr>
   = (\<lparr> telegram_auth_codes =
         [\<lparr> ac_user_id = ''u1'', ac_code = ''K7Q2ZD'', ac_created_at = 10, ac_expires_at = 1000,
            ac_is_used = True \<rparr>],
       telegram_connections = [], memories = [], memory_files = [], next_memory_id = 0 \<rparr>,
      Inl CodeAlreadyUsed)"
proof -
  let ?row = "\<lparr> ac_user_id = ''u1'', ac_code = ''K7Q2ZD'', ac_created_at = 10,
                ac_expires_at = 1000, ac_is_used = True \<rparr>"
  let ?db = "\<lparr> telegram_auth_codes = [?row], telegram_connections = [], memories = [],
               memory_files = [], next_memory_id = 0 \<rparr>"
  have l: "latest_code_row ''K7Q2ZD'' ?db = Some ?row"
    by (simp add: latest_code_row_def order_by_desc_def)
  have "latest_code_row ''K7Q2ZD'' ?db = Some ?row \<and> ac_is_used ?row \<longrightarrow>
         verify_and_connect 2000 ''K7Q2ZD'' ''42'' None None None ?db = (?db, Inl CodeAlreadyUsed)"
    using verify_and_connect_rejects[of "''K7Q2ZD''" ?db 2000 "''42''" None None None]
    by blast
  then show ?thesis using l by simp
qed
section \<open>Generating a code\<close>



text \<open>
  Claim C2. With a configured duration that is not negative, \<open>generate_auth_code\<close> returns
  the code, adds one row, and leaves every earlier row of the user flagged used (rows of
  other users are as they were). Right after the call the user's unused, unexpired codes
  are exactly the new row, whose expiry is the current time plus the configured duration;
  and at any time the user has at most one unused, unexpired code.
\<close>

theorem generate_auth_code_invalidates:
  assumes "0 \<le> AUTH_CODE_EXPIRY_MINUTES cfg"
  shows "snd (generate_auth_code cfg now code user_id db) = code
    \<and> length (telegram_auth_codes (fst (generate_auth_code cfg now code user_id db)))
        = Suc (length (telegram_auth_codes db))
    \<and> (\<forall>i < length (telegram_auth_codes db).
          telegram_auth_codes (fst (generate_auth_code cfg now code user_id db)) ! i
          = (if ac_user_id (telegram_auth_codes db ! i) = user_id
             then (telegram_auth_codes db ! i)\<lparr>ac_is_used := True\<rparr>
             else telegram_auth_codes db ! i))
    \<and> filter (\<lambda>r. ac_user_id r = user_id \<and> \<not> ac_is_used r \<and> \<not> now > ac_expires_at r)
         (telegram_auth_codes (fst (generate_auth_code cfg now code user_id db)))
       = [\<lparr> ac_user_id = user_id, ac_code = code, ac_created_at = now,
            ac_expires_at = now + minutes (AUTH_CODE_EXPIRY_MINUTES cfg), ac_is_used = False \<rparr>]
    \<and> (\<forall>t. length (filter (\<lambda>r. ac_user_id r = user_id \<and> \<not> ac_is_used r \<and> \<not> t > ac_expires_at r)
                  (telegram_auth_codes (fst (generate_auth_code cfg now code user_id db)))) \<le> 1)"
proof -
  let ?old = "telegram_auth_codes db"
  let ?inv = "map (\<lambda>r. if ac_user_id r = user_id \<and> ac_is_used r = False
                          then r\<lparr>ac_is_used := True\<rparr> else r) ?old"
  let ?new = "\<lparr> ac_user_id = user_id, ac_code = code, ac_created_at = now,
            ac_expires_at = now + minutes (AUTH_CODE_EXPIRY_MINUTES cfg), ac_is_used = False \<rparr>"
  have codes: "telegram_auth_codes (fst (generate_auth_code cfg now code user_id db)) = ?inv @ [?new]"
    by (simp add: generate_auth_code_def Let_def)
  have none: "filter (\<lambda>r. ac_user_id r = user_id \<and> \<not> ac_is_used r \<and> \<not> ac_expires_at r < t)
                 (map (\<lambda>r. if ac_user_id r = user_id \<and> \<not> ac_is_used r
                           then r\<lparr>ac_is_used := True\<rparr> else r) old) = []" for t old
    by (induction old) simp_all
  have fresh: "\<not> now > now + minutes (AUTH_CODE_EXPIRY_MINUTES cfg)"
    using assms by (simp add: minutes_def)
  have nth: "\<forall>i < length ?old. (?inv @ [?new]) ! i
          = (if ac_user_id (?old ! i) = user_id then (?old ! i)\<lparr>ac_is_used := True\<rparr> else ?old ! i)"
    by (simp add: nth_append)
  have ret: "snd (generate_auth_code cfg now code user_id db) = code"
    by (simp add: generate_auth_code_def Let_def)
  show ?thesis
    unfolding codes
    using ret nth fresh by (simp add: none)
qed

theorem generate_auth_code_invalidates_witness:
  "filter (\<lambda>r. ac_user_id r = ''u1'' \<and> \<not> ac_is_used r \<and> \<not> 500 > ac_expires_at r)
     (telegram_auth_codes (fst (generate_auth_code
        \<lparr> TELEGRAM_BOT_TOKEN = ''t'', APP_BASE_URL = ''http://localhost:3000'',
          AUTH_CODE_EXPIRY_MINUTES = 10, AUTH_CODE_LENGTH = 6 \<rparr>
        500 ''K7Q2ZD'' ''u1''
        \<lparr> telegram_auth_codes =
            [\<lparr> ac_user_id = ''u1'', ac_code = ''AAAAAA'', ac_created_at = 10,
               ac_expires_at = 600000010, ac_is_used = False \<rparr>],
          telegram_connections = [], memories = [], memory_files = [], next_memory_id = 0 \<rparr>)))
   = [\<lparr> ac_user_id = ''u1'', ac_code = ''K7Q2ZD'', ac_created_at = 500,
        ac_expires_at = 600000500, ac_is_used = False \<rparr>]"
proof -
  let ?cfg = "\<lparr> TELEGRAM_BOT_TOKEN = ''t'', APP_BASE_URL = ''http://localhost:3000'',
          AUTH_CODE_EXPIRY_MINUTES = 10, AUTH_CODE_LENGTH = 6 \<rparr>"
  have h: "0 \<le> AUTH_CODE_EXPIRY_MINUTES ?cfg" by simp
  show ?thesis
    using generate_auth_code_invalidates[OF h, of 500 "''K7Q2ZD''" "''u1''"]
    by (simp add: minutes_def)
qed



end
